theory Spec2Isabelle
  imports Main
begin

section \<open>The service worker of the portfolio site (sw.js)\<close>

text \<open>
  The worker registers three listeners (install, activate, fetch) and three asynchronous
  handlers. Everything the listeners touch belongs to the hosting browser: the cache
  storage, the network and the lifecycle of the worker. The host is modelled by plain
  values: the cache storage is a list of named partitions in creation order, the network
  is a function from a request to either a rejection or a response, and the calls the
  worker makes on the host (network retrievals, \<open>skipWaiting\<close>, \<open>clients.claim\<close>) are
  recorded in the state. A promise that rejects is a value \<open>Inl\<close>; a promise that
  resolves with \<open>undefined\<close> is \<open>None\<close>.
\<close>

subsection \<open>Requests and responses\<close>

record request =
  "method" :: string
  url :: string
  destination :: string

text \<open>Of the headers of a response only \<open>Vary\<close> matters to the cache; \<open>vary\<close> holds
  its field values, and is empty when the header is absent.\<close>

record response =
  status :: nat
  body :: string
  vary :: "string list"

text \<open>\<open>response.ok\<close>: the status is in the range 200 to 299.\<close>

definition ok :: "response \<Rightarrow> bool" where
  "ok r = (200 \<le> status r \<and> status r \<le> 299)"

text \<open>\<open>new Response(body, { status })\<close>.\<close>

definition Response :: "string \<Rightarrow> nat \<Rightarrow> response" where
  "Response b s = \<lparr>status = s, body = b, vary = []\<rparr>"

datatype js_error = TypeError | InvalidStateError

text \<open>\<open>fetch(request)\<close> rejects on a network-layer fault (\<open>Inl\<close>) and resolves with a
  response of any status otherwise (\<open>Inr\<close>).\<close>

type_synonym network = "request \<Rightarrow> js_error + response"

subsection \<open>Strings\<close>

text \<open>\<open>s.includes(t)\<close>: \<open>t\<close> occurs in \<open>s\<close> as a contiguous substring.\<close>

definition startsWith :: "string \<Rightarrow> string \<Rightarrow> bool" where
  "startsWith s t = (take (length t) s = t)"

fun includes_str :: "string \<Rightarrow> string \<Rightarrow> bool" where
  "includes_str [] t = (t = [])"
| "includes_str (c # cs) t = (startsWith (c # cs) t \<or> includes_str cs t)"

text \<open>The scheme test of the cache: only \<open>http\<close> and \<open>https\<close> requests can be stored.\<close>

definition http_scheme :: "string \<Rightarrow> bool" where
  "http_scheme u = (startsWith u ''http://'' \<or> startsWith u ''https://'')"

text \<open>The cache compares request URLs with the fragment left out.\<close>

definition strip_fragment :: "string \<Rightarrow> string" where
  "strip_fragment u = takeWhile (\<lambda>c. c \<noteq> CHR ''#'') u"

subsection \<open>The cache storage of the host\<close>

text \<open>
  A partition (\<open>Cache\<close>) is a list of entries, each the URL of a stored GET request
  with its response. A lookup returns the first entry whose URL equals the URL asked
  for, fragments left out; storing an entry removes the entries that such a lookup
  would find and appends the new one. The storage (\<open>caches\<close>) keeps its partitions in
  creation order: \<open>caches.open\<close> creates a missing partition at the end,
  \<open>caches.keys\<close> lists the names in that order, \<open>caches.delete\<close> removes a
  partition, and \<open>caches.match\<close> searches the partitions in creation order and
  resolves with the first entry found, or with \<open>undefined\<close>. Requests carry no
  headers here, so the lookup is by URL alone: that is the lookup of the host for a
  response without a \<open>Vary\<close> header, and for requests that agree on the headers a
  \<open>Vary\<close> header names.

  \<open>cache.put\<close> stores nothing and rejects when the URL of the request is not an
  \<open>http\<close> or \<open>https\<close> URL, when its method is not GET, when the status of the response
  is 206, or when the \<open>Vary\<close> header of the response has the value \<open>*\<close>. The handlers
  do not await the promise of \<open>put\<close>, so for them a rejected \<open>put\<close> is a \<open>put\<close> that
  did nothing; the partition has been opened, and so created, before. Failures of the
  storage medium itself (quota, a body that breaks off while it is read) are not part of
  the model.
\<close>

type_synonym cache = "(string \<times> response) list"

type_synonym cache_storage = "(string \<times> cache) list"

fun cache_match :: "cache \<Rightarrow> string \<Rightarrow> response option" where
  "cache_match [] u = None"
| "cache_match (e # c) u =
     (if strip_fragment (fst e) = strip_fragment u then Some (snd e) else cache_match c u)"

definition cache_put :: "string \<Rightarrow> response \<Rightarrow> cache \<Rightarrow> cache" where
  "cache_put u r c =
     filter (\<lambda>e. strip_fragment (fst e) \<noteq> strip_fragment u) c @ [(u, r)]"

definition caches_open :: "string \<Rightarrow> cache_storage \<Rightarrow> cache_storage" where
  "caches_open name cs = (case map_of cs name of None \<Rightarrow> cs @ [(name, [])] | Some c \<Rightarrow> cs)"

definition caches_keys :: "cache_storage \<Rightarrow> string list" where
  "caches_keys cs = map fst cs"

definition caches_delete :: "string \<Rightarrow> cache_storage \<Rightarrow> cache_storage" where
  "caches_delete name cs = filter (\<lambda>e. fst e \<noteq> name) cs"

fun caches_match :: "cache_storage \<Rightarrow> string \<Rightarrow> response option" where
  "caches_match [] u = None"
| "caches_match (p # ps) u =
     (case cache_match (snd p) u of Some r \<Rightarrow> Some r | None \<Rightarrow> caches_match ps u)"

text \<open>The contents of the partition of a given name; empty when there is none.\<close>

definition partition_of :: "cache_storage \<Rightarrow> string \<Rightarrow> cache" where
  "partition_of cs name = (case map_of cs name of None \<Rightarrow> [] | Some c \<Rightarrow> c)"

text \<open>Storing an entry in the partition of a given name.\<close>

definition store_in :: "string \<Rightarrow> string \<Rightarrow> response \<Rightarrow> cache_storage \<Rightarrow> cache_storage" where
  "store_in name u r cs =
     map (\<lambda>p. if fst p = name then (fst p, cache_put u r (snd p)) else p) cs"

text \<open>The tests of \<open>cache.put(request, response)\<close>.\<close>

definition storable :: "request \<Rightarrow> response \<Rightarrow> bool" where
  "storable rq r =
     (http_scheme (url rq) \<and> method rq = ''GET'' \<and> status r \<noteq> 206 \<and> ''*'' \<notin> set (vary r))"

text \<open>\<open>(await caches.open(name)).put(request, response)\<close>, the \<open>put\<close> not awaited.\<close>

definition put_in :: "string \<Rightarrow> request \<Rightarrow> response \<Rightarrow> cache_storage \<Rightarrow> cache_storage" where
  "put_in name rq r cs =
     (let cs1 = caches_open name cs in
      if storable rq r then store_in name (url rq) r cs1 else cs1)"

subsection \<open>The state the worker acts on\<close>

record sw_state =
  caches :: cache_storage
  net_log :: "request list"
  skipWaitingCalled :: bool
  clientsClaimed :: bool

text \<open>One network retrieval: the request is recorded and the network answers.\<close>

definition fetch :: "network \<Rightarrow> request \<Rightarrow> sw_state \<Rightarrow> (js_error + response) \<times> sw_state" where
  "fetch net rq st = (net rq, st\<lparr>net_log := net_log st @ [rq]\<rparr>)"

subsection \<open>Constants of the worker\<close>

definition STATIC_CACHE :: string where
  "STATIC_CACHE = ''static-v1.0.0''"

definition DYNAMIC_CACHE :: string where
  "DYNAMIC_CACHE = ''dynamic-v1.0.0''"

definition STATIC_ASSETS :: "string list" where
  "STATIC_ASSETS = [''/'', ''/index.html'', ''/style.css'', ''/script.js'', ''/assets/resume.pdf'']"

text \<open>A URL given as an absolute path is resolved against the origin of the worker; the
  request the host builds from it is a GET with no destination.\<close>

definition resolve :: "string \<Rightarrow> string \<Rightarrow> string" where
  "resolve origin path = origin @ path"

definition GET :: "string \<Rightarrow> request" where
  "GET u = \<lparr>method = ''GET'', url = u, destination = ''''\<rparr>"

subsection \<open>The install listener\<close>

text \<open>
  \<open>cache.addAll(urls)\<close> rejects with a \<open>TypeError\<close>, before any retrieval, when one
  of the URLs is not an \<open>http\<close> or \<open>https\<close> URL. It then retrieves every URL and
  rejects with a \<open>TypeError\<close> when a retrieval fails, answers with a status outside 200
  to 299 or with status 206, or answers with the \<open>Vary\<close> value \<open>*\<close>. When all
  responses arrived it stores them in one step, which fails with an
  \<open>InvalidStateError\<close>, storing nothing, when two of the URLs are the same up to their
  fragments.
\<close>

definition addable :: "response \<Rightarrow> bool" where
  "addable r = (ok r \<and> status r \<noteq> 206 \<and> ''*'' \<notin> set (vary r))"

fun fetch_each :: "network \<Rightarrow> string list \<Rightarrow> js_error + (string \<times> response) list" where
  "fetch_each net [] = Inr []"
| "fetch_each net (u # us) =
     (case net (GET u) of
        Inl e \<Rightarrow> Inl TypeError
      | Inr r \<Rightarrow>
          if addable r then
            (case fetch_each net us of Inl e \<Rightarrow> Inl e | Inr rs \<Rightarrow> Inr ((u, r) # rs))
          else Inl TypeError)"

definition put_each :: "string \<Rightarrow> (string \<times> response) list \<Rightarrow> cache_storage \<Rightarrow> cache_storage" where
  "put_each name rs cs = fold (\<lambda>e. store_in name (fst e) (snd e)) rs cs"

definition addAll ::
  "network \<Rightarrow> string \<Rightarrow> string list \<Rightarrow> sw_state \<Rightarrow> (js_error + unit) \<times> sw_state" where
  "addAll net name us st =
     (if filter (\<lambda>u. \<not> http_scheme u) us \<noteq> [] then (Inl TypeError, st)
      else
        let st1 = st\<lparr>net_log := net_log st @ map GET us\<rparr> in
        case fetch_each net us of
          Inl e \<Rightarrow> (Inl e, st1)
        | Inr rs \<Rightarrow>
            if distinct (map strip_fragment us)
            then (Inr (), st1\<lparr>caches := put_each name rs (caches st1)\<rparr>)
            else (Inl InvalidStateError, st1))"

text \<open>
  The promise handed to \<open>event.waitUntil\<close>: open the static partition, add all static
  assets, then call \<open>skipWaiting\<close>. A rejection of \<open>addAll\<close> skips the last step and
  rejects the whole chain.
\<close>

definition onInstall :: "string \<Rightarrow> network \<Rightarrow> sw_state \<Rightarrow> (js_error + unit) \<times> sw_state" where
  "onInstall origin net st =
     (let st1 = st\<lparr>caches := caches_open STATIC_CACHE (caches st)\<rparr> in
      case addAll net STATIC_CACHE (map (resolve origin) STATIC_ASSETS) st1 of
        (Inl e, st2) \<Rightarrow> (Inl e, st2)
      | (Inr u, st2) \<Rightarrow> (Inr (), st2\<lparr>skipWaitingCalled := True\<rparr>))"

subsection \<open>The activate listener\<close>

text \<open>
  Every listed partition name that differs from both current names is deleted, then the
  open pages are claimed. The two names are parameters of \<open>activate\<close>, so that a later
  deployment, which changes nothing but the two constants, is covered as well;
  \<open>onActivate\<close> is the listener of this file.
\<close>

definition activate :: "string \<Rightarrow> string \<Rightarrow> sw_state \<Rightarrow> sw_state" where
  "activate static dynamic st =
     (let cacheNames = caches_keys (caches st);
          cs = fold (\<lambda>cacheName cs.
                 if cacheName \<noteq> static \<and> cacheName \<noteq> dynamic then caches_delete cacheName cs
                 else cs) cacheNames (caches st)
      in st\<lparr>caches := cs, clientsClaimed := True\<rparr>)"

definition onActivate :: "sw_state \<Rightarrow> sw_state" where
  "onActivate st = activate STATIC_CACHE DYNAMIC_CACHE st"

subsection \<open>The lifecycle the host runs\<close>

text \<open>
  The host activates a worker only after the promise of its install listener resolved;
  when that promise rejects the worker becomes redundant and its activate listener never
  runs.
\<close>

datatype phase = Activated | Redundant

definition lifecycle :: "string \<Rightarrow> network \<Rightarrow> sw_state \<Rightarrow> phase \<times> sw_state" where
  "lifecycle origin net st =
     (case onInstall origin net st of
        (Inl e, st1) \<Rightarrow> (Redundant, st1)
      | (Inr u, st1) \<Rightarrow> (Activated, onActivate st1))"

subsection \<open>The fetch handlers\<close>

text \<open>Cache first, for images.\<close>

definition handleImageRequest :: "network \<Rightarrow> request \<Rightarrow> sw_state \<Rightarrow> response option \<times> sw_state" where
  "handleImageRequest net rq st =
     (case caches_match (caches st) (url rq) of
        Some cachedResponse \<Rightarrow> (Some cachedResponse, st)
      | None \<Rightarrow>
          (case fetch net rq st of
             (Inr networkResponse, st1) \<Rightarrow>
               (Some networkResponse,
                if ok networkResponse
                then st1\<lparr>caches := put_in DYNAMIC_CACHE rq networkResponse (caches st1)\<rparr>
                else st1)
           | (Inl e, st1) \<Rightarrow> (Some (Response '''' 404), st1)))"

text \<open>Cache first, for assets.\<close>

definition handleAssetRequest :: "network \<Rightarrow> request \<Rightarrow> sw_state \<Rightarrow> response option \<times> sw_state" where
  "handleAssetRequest net rq st =
     (case caches_match (caches st) (url rq) of
        Some cachedResponse \<Rightarrow> (Some cachedResponse, st)
      | None \<Rightarrow>
          (case fetch net rq st of
             (Inr networkResponse, st1) \<Rightarrow>
               (Some networkResponse,
                if ok networkResponse
                then st1\<lparr>caches := put_in DYNAMIC_CACHE rq networkResponse (caches st1)\<rparr>
                else st1)
           | (Inl e, st1) \<Rightarrow> (Some (Response '''' 404), st1)))"

text \<open>Network first, for pages. In the \<open>catch\<close> branch a request for a document returns
  whatever \<open>caches.match('/index.html')\<close> resolves with, \<open>undefined\<close> included.\<close>

definition handlePageRequest ::
  "string \<Rightarrow> network \<Rightarrow> request \<Rightarrow> sw_state \<Rightarrow> response option \<times> sw_state" where
  "handlePageRequest origin net rq st =
     (case fetch net rq st of
        (Inr networkResponse, st1) \<Rightarrow>
          (Some networkResponse,
           if ok networkResponse
           then st1\<lparr>caches := put_in DYNAMIC_CACHE rq networkResponse (caches st1)\<rparr>
           else st1)
      | (Inl e, st1) \<Rightarrow>
          (case caches_match (caches st1) (url rq) of
             Some cachedResponse \<Rightarrow> (Some cachedResponse, st1)
           | None \<Rightarrow>
               if destination rq = ''document''
               then (caches_match (caches st1) (resolve origin ''/index.html''), st1)
               else (Some (Response ''Offline'' 503), st1)))"

subsection \<open>The fetch listener\<close>

text \<open>
  The listener either returns without calling \<open>event.respondWith\<close>, which leaves the
  request to the host, or hands the promise of one handler to \<open>respondWith\<close>. A promise
  that resolves with no response makes the host fail the request of the page.
\<close>

datatype fetch_result = NotIntercepted | RespondWith "response option"

definition respondWith :: "response option \<times> sw_state \<Rightarrow> fetch_result \<times> sw_state" where
  "respondWith p = (RespondWith (fst p), snd p)"

definition onFetch :: "string \<Rightarrow> network \<Rightarrow> request \<Rightarrow> sw_state \<Rightarrow> fetch_result \<times> sw_state" where
  "onFetch origin net rq st =
     (if method rq \<noteq> ''GET'' then (NotIntercepted, st)
      else if destination rq = ''image'' then respondWith (handleImageRequest net rq st)
      else if includes_str (url rq) ''/assets/'' then respondWith (handleAssetRequest net rq st)
      else respondWith (handlePageRequest origin net rq st))"

subsection \<open>Request classes\<close>

text \<open>The class of a GET request, read off the conditions of the listener in their
  order: the destination is tested first, then the URL, and a page is what remains.\<close>

datatype request_class = Image | Asset | Page

definition classify :: "request \<Rightarrow> request_class" where
  "classify rq =
     (if destination rq = ''image'' then Image
      else if includes_str (url rq) ''/assets/'' then Asset
      else Page)"

text \<open>
  The classification in the words of the specification, for comparison: an asset is a
  request whose path falls under the prefix \<open>/assets/\<close>. The path of an absolute URL
  starts at the first slash after the scheme separator and ends before the query or the
  fragment.
\<close>

fun after_scheme :: "string \<Rightarrow> string" where
  "after_scheme (a # b # c # s) =
     (if [a, b, c] = ''://'' then s else after_scheme (b # c # s))"
| "after_scheme s = s"

definition url_path :: "string \<Rightarrow> string" where
  "url_path u =
     takeWhile (\<lambda>c. c \<noteq> CHR ''?'' \<and> c \<noteq> CHR ''#'')
       (dropWhile (\<lambda>c. c \<noteq> CHR ''/'') (after_scheme u))"

definition spec_classify :: "request \<Rightarrow> request_class" where
  "spec_classify rq =
     (if destination rq = ''image'' then Image
      else if startsWith (url_path (url rq)) ''/assets/'' then Asset
      else Page)"

subsection \<open>Whether a static asset can be retrieved\<close>

definition fetchable :: "network \<Rightarrow> string \<Rightarrow> bool" where
  "fetchable net u = (case net (GET u) of Inl e \<Rightarrow> False | Inr r \<Rightarrow> addable r)"

subsection \<open>Concrete hosts\<close>

text \<open>A site, a network that answers every request with status 200 and the URL as the
  body, a network that is down, and a worker that has not run yet.\<close>

definition site :: string where
  "site = ''https://example.com''"

definition online :: network where
  "online rq = Inr (Response (url rq) 200)"

definition offline :: network where
  "offline rq = Inl TypeError"

definition fresh :: sw_state where
  "fresh = \<lparr>caches = [], net_log = [], skipWaitingCalled = False, clientsClaimed = False\<rparr>"

section \<open>Properties of the cache storage\<close>

lemma cache_match_append:
  "cache_match (xs @ ys) v =
     (case cache_match xs v of Some r \<Rightarrow> Some r | None \<Rightarrow> cache_match ys v)"
  by (induction xs) auto

lemma cache_match_filter:
  "cache_match (filter (\<lambda>e. strip_fragment (fst e) \<noteq> strip_fragment u) c) v =
     (if strip_fragment v = strip_fragment u then None else cache_match c v)"
  by (induction c) auto

lemma cache_match_put:
  "cache_match (cache_put u r c) v =
     (if strip_fragment v = strip_fragment u then Some r else cache_match c v)"
  by (simp add: cache_put_def cache_match_append cache_match_filter split: option.splits)

lemma cache_put_idem: "cache_put u r (cache_put u r c) = cache_put u r c"
  by (simp add: cache_put_def)

lemma map_of_caches_open:
  "map_of (caches_open name cs) n =
     (if n = name \<and> map_of cs name = None then Some [] else map_of cs n)"
  by (auto simp: caches_open_def map_of_append map_add_def split: option.splits)

lemma caches_open_present: "map_of cs name \<noteq> None \<Longrightarrow> caches_open name cs = cs"
  by (auto simp: caches_open_def)

lemma caches_open_idem: "caches_open name (caches_open name cs) = caches_open name cs"
  by (rule caches_open_present) (simp add: map_of_caches_open)

lemma partition_caches_open: "partition_of (caches_open name cs) n = partition_of cs n"
  by (simp add: partition_of_def map_of_caches_open)

lemma map_of_store_in:
  "map_of (store_in name u r cs) n =
     (if n = name then map_option (cache_put u r) (map_of cs n) else map_of cs n)"
  by (induction cs) (auto simp: store_in_def)

lemma partition_store_in:
  "map_of cs name \<noteq> None \<Longrightarrow>
     partition_of (store_in name u r cs) n =
       (if n = name then cache_put u r (partition_of cs name) else partition_of cs n)"
  by (auto simp: partition_of_def map_of_store_in)

lemma store_in_idem: "store_in name u r (store_in name u r cs) = store_in name u r cs"
  by (simp add: store_in_def cache_put_idem comp_def cong: map_cong)

lemma put_in_stored:
  "storable rq r \<Longrightarrow> put_in name rq r cs = store_in name (url rq) r (caches_open name cs)"
  by (simp add: put_in_def Let_def)

lemma put_in_refused: "\<not> storable rq r \<Longrightarrow> put_in name rq r cs = caches_open name cs"
  by (simp add: put_in_def Let_def)

lemma caches_open_store_in:
  "caches_open name (store_in name u r (caches_open name cs)) =
     store_in name u r (caches_open name cs)"
  by (rule caches_open_present) (simp add: map_of_store_in map_of_caches_open)

lemma put_in_idem: "put_in name rq r (put_in name rq r cs) = put_in name rq r cs"
proof (cases "storable rq r")
  case True
  then show ?thesis
    by (simp add: put_in_stored caches_open_store_in store_in_idem)
next
  case False
  then show ?thesis
    by (simp add: put_in_refused caches_open_idem)
qed

lemma partition_put_in:
  "partition_of (put_in name rq r cs) n =
     (if n = name \<and> storable rq r then cache_put (url rq) r (partition_of cs name)
      else partition_of cs n)"
proof (cases "storable rq r")
  case True
  have "map_of (caches_open name cs) name \<noteq> None"
    by (simp add: map_of_caches_open)
  with True show ?thesis
    by (simp add: put_in_stored partition_store_in partition_caches_open)
next
  case False
  then show ?thesis
    by (simp add: put_in_refused partition_caches_open)
qed

lemma match_partition_put_in:
  "storable rq r \<Longrightarrow> cache_match (partition_of (put_in name rq r cs) name) (url rq) = Some r"
  by (simp add: partition_put_in cache_match_put)

lemma caches_match_store_in:
  assumes "\<exists>p\<in>set xs. fst p = name"
    and "\<forall>p\<in>set xs. fst p \<noteq> name \<longrightarrow> cache_match (snd p) u = None"
  shows "caches_match (store_in name u r xs) u = Some r"
  using assms unfolding store_in_def by (induction xs) (auto simp: cache_match_put)

lemma caches_match_put_in:
  assumes "storable rq r"
    and "\<forall>p\<in>set cs. fst p \<noteq> name \<longrightarrow> cache_match (snd p) (url rq) = None"
  shows "caches_match (put_in name rq r cs) (url rq) = Some r"
proof -
  have "\<exists>p\<in>set (caches_open name cs). fst p = name"
  proof (cases "map_of cs name")
    case None
    then show ?thesis by (simp add: caches_open_def)
  next
    case (Some c)
    then have "(name, c) \<in> set cs" by (rule map_of_SomeD)
    then have "\<exists>p\<in>set cs. fst p = name" by force
    with Some show ?thesis by (simp add: caches_open_def)
  qed
  moreover have "\<forall>p\<in>set (caches_open name cs).
      fst p \<noteq> name \<longrightarrow> cache_match (snd p) (url rq) = None"
    using assms(2) by (auto simp: caches_open_def split: option.splits)
  ultimately have "caches_match (store_in name (url rq) r (caches_open name cs)) (url rq) = Some r"
    by (rule caches_match_store_in)
  with assms(1) show ?thesis
    by (simp add: put_in_stored)
qed

lemma partition_put_each:
  "map_of cs name \<noteq> None \<Longrightarrow>
     partition_of (put_each name rs cs) n =
       (if n = name then fold (\<lambda>e. cache_put (fst e) (snd e)) rs (partition_of cs name)
        else partition_of cs n)"
  unfolding put_each_def
proof (induction rs arbitrary: cs)
  case Nil
  then show ?case by simp
next
  case (Cons e rs)
  from Cons.prems have "map_of (store_in name (fst e) (snd e) cs) name \<noteq> None"
    by (simp add: map_of_store_in)
  from Cons.IH[OF this] Cons.prems show ?case
    by (simp add: partition_store_in)
qed

lemma ids_cache_put:
  "(\<lambda>e. strip_fragment (fst e)) ` set (cache_put u r c) =
     insert (strip_fragment u) ((\<lambda>e. strip_fragment (fst e)) ` set c)"
  by (auto simp: cache_put_def image_iff)

lemma ids_fold_put:
  "(\<lambda>e. strip_fragment (fst e)) ` set (fold (\<lambda>e. cache_put (fst e) (snd e)) rs c) =
     (\<lambda>e. strip_fragment (fst e)) ` set c \<union> (\<lambda>e. strip_fragment (fst e)) ` set rs"
  by (induction rs arbitrary: c) (auto simp: ids_cache_put)

lemma match_fold_put_other:
  "strip_fragment u \<notin> (\<lambda>e. strip_fragment (fst e)) ` set rs \<Longrightarrow>
     cache_match (fold (\<lambda>e. cache_put (fst e) (snd e)) rs c) u = cache_match c u"
  by (induction rs arbitrary: c) (auto simp: cache_match_put)

lemma match_fold_put:
  "distinct (map (\<lambda>e. strip_fragment (fst e)) rs) \<Longrightarrow> (u, r) \<in> set rs \<Longrightarrow>
     cache_match (fold (\<lambda>e. cache_put (fst e) (snd e)) rs c) u = Some r"
proof (induction rs arbitrary: c)
  case Nil
  then show ?case by simp
next
  case (Cons p rs)
  show ?case
  proof (cases "p = (u, r)")
    case True
    with Cons.prems have "strip_fragment u \<notin> (\<lambda>e. strip_fragment (fst e)) ` set rs" by force
    with True show ?thesis
      by (simp add: match_fold_put_other cache_match_put)
  next
    case False
    with Cons show ?thesis by auto
  qed
qed

lemma fold_delete_filter:
  "fold (\<lambda>cacheName cs. if cacheName \<noteq> s \<and> cacheName \<noteq> d then caches_delete cacheName cs else cs) ns cs
     = filter (\<lambda>p. fst p \<notin> set ns \<or> fst p = s \<or> fst p = d) cs"
proof (induction ns arbitrary: cs)
  case Nil
  then show ?case by simp
next
  case (Cons n ns)
  show ?case
    by (auto simp: Cons.IH caches_delete_def intro!: filter_cong)
qed

lemma caches_activate:
  "caches (activate s d st) = filter (\<lambda>p. fst p = s \<or> fst p = d) (caches st)"
  by (auto simp: activate_def Let_def fold_delete_filter caches_keys_def intro!: filter_cong)

section \<open>Properties of the install step\<close>

lemma startsWith_append: "startsWith s t \<Longrightarrow> startsWith (s @ x) t"
proof -
  assume a: "startsWith s t"
  then have "length (take (length t) s) = length t"
    by (simp add: startsWith_def)
  then have "length t \<le> length s"
    by simp
  with a show ?thesis
    by (simp add: startsWith_def)
qed

lemma http_scheme_resolve: "http_scheme origin \<Longrightarrow> http_scheme (resolve origin p)"
  by (auto simp: http_scheme_def resolve_def startsWith_append)

lemma strip_fragment_static:
  "CHR ''#'' \<notin> set origin \<Longrightarrow> p \<in> set STATIC_ASSETS \<Longrightarrow>
     strip_fragment (resolve origin p) = resolve origin p"
  by (auto simp: strip_fragment_def resolve_def STATIC_ASSETS_def takeWhile_eq_all_conv)

lemma distinct_static_assets: "distinct (map (resolve origin) STATIC_ASSETS)"
  by (simp add: STATIC_ASSETS_def resolve_def)

lemma distinct_static_identities:
  assumes "CHR ''#'' \<notin> set origin"
  shows "distinct (map strip_fragment (map (resolve origin) STATIC_ASSETS))"
proof -
  have "map strip_fragment (map (resolve origin) STATIC_ASSETS) = map (resolve origin) STATIC_ASSETS"
    using assms by (simp add: strip_fragment_static)
  then show ?thesis
    by (simp only: distinct_static_assets)
qed

lemma static_assets_http:
  "http_scheme origin \<Longrightarrow>
     filter (\<lambda>u. \<not> http_scheme u) (map (resolve origin) STATIC_ASSETS) = []"
  by (simp add: filter_empty_conv http_scheme_resolve)

lemma fetch_each_fetchable:
  "fetch_each net us = Inr rs \<Longrightarrow> \<forall>u\<in>set us. fetchable net u"
  by (induction us arbitrary: rs) (auto simp: fetchable_def split: sum.splits if_splits)

lemma fetchable_fetch_each:
  "\<forall>u\<in>set us. fetchable net u \<Longrightarrow> \<exists>rs. fetch_each net us = Inr rs"
  by (induction us) (auto simp: fetchable_def split: sum.splits)

lemma fetch_each_Inr_iff:
  "(\<exists>rs. fetch_each net us = Inr rs) \<longleftrightarrow> (\<forall>u\<in>set us. fetchable net u)"
  using fetch_each_fetchable fetchable_fetch_each by blast

lemma fetch_each_Inr:
  "fetch_each net us = Inr rs \<Longrightarrow>
     map fst rs = us \<and> (\<forall>p\<in>set rs. net (GET (fst p)) = Inr (snd p))"
  by (induction us arbitrary: rs) (auto split: sum.splits if_splits)

lemma fetch_each_Inl: "fetch_each net us = Inl e \<Longrightarrow> e = TypeError"
  by (induction us arbitrary: e) (auto split: sum.splits if_splits)

lemma onInstall_rejects:
  assumes "http_scheme origin"
    and "\<not> (\<forall>u\<in>set STATIC_ASSETS. fetchable net (resolve origin u))"
  shows "onInstall origin net st =
           (Inl TypeError,
            st\<lparr>caches := caches_open STATIC_CACHE (caches st),
               net_log := net_log st @ map GET (map (resolve origin) STATIC_ASSETS)\<rparr>)"
proof -
  have "\<not> (\<exists>rs. fetch_each net (map (resolve origin) STATIC_ASSETS) = Inr rs)"
    using assms(2) by (simp add: fetch_each_Inr_iff)
  then obtain e where e: "fetch_each net (map (resolve origin) STATIC_ASSETS) = Inl e"
    by (cases "fetch_each net (map (resolve origin) STATIC_ASSETS)") auto
  then have "e = TypeError" by (rule fetch_each_Inl)
  with e show ?thesis
    by (simp add: onInstall_def addAll_def Let_def static_assets_http[OF assms(1)])
qed

lemma onInstall_resolves:
  assumes "http_scheme origin" and "CHR ''#'' \<notin> set origin"
    and "\<forall>u\<in>set STATIC_ASSETS. fetchable net (resolve origin u)"
  shows "\<exists>rs. fetch_each net (map (resolve origin) STATIC_ASSETS) = Inr rs \<and>
           onInstall origin net st =
             (Inr (),
              st\<lparr>caches := put_each STATIC_CACHE rs (caches_open STATIC_CACHE (caches st)),
                 net_log := net_log st @ map GET (map (resolve origin) STATIC_ASSETS),
                 skipWaitingCalled := True\<rparr>)"
proof -
  from assms(3) obtain rs where "fetch_each net (map (resolve origin) STATIC_ASSETS) = Inr rs"
    using fetch_each_Inr_iff[of net "map (resolve origin) STATIC_ASSETS"] by auto
  moreover from distinct_static_identities[OF assms(2)]
  have "distinct (map (strip_fragment \<circ> resolve origin) STATIC_ASSETS)"
    by (simp del: distinct_map)
  ultimately show ?thesis
    by (simp add: onInstall_def addAll_def Let_def static_assets_http[OF assms(1)]
        del: distinct_map)
qed

section \<open>Properties of the fetch listener\<close>

lemma classify_cases:
  "classify rq = Image \<longleftrightarrow> destination rq = ''image''"
  "classify rq = Asset \<longleftrightarrow> destination rq \<noteq> ''image'' \<and> includes_str (url rq) ''/assets/''"
  "classify rq = Page \<longleftrightarrow> destination rq \<noteq> ''image'' \<and> \<not> includes_str (url rq) ''/assets/''"
  by (auto simp: classify_def)

lemma handleAsset_eq_handleImage: "handleAssetRequest net rq st = handleImageRequest net rq st"
  by (simp add: handleAssetRequest_def handleImageRequest_def)

lemma onFetch_cache_first:
  assumes "method rq = ''GET''" and "classify rq = Image \<or> classify rq = Asset"
  shows "onFetch origin net rq st = respondWith (handleImageRequest net rq st)"
  using assms by (auto simp: onFetch_def classify_cases handleAsset_eq_handleImage)

lemma onFetch_page:
  assumes "method rq = ''GET''" and "classify rq = Page"
  shows "onFetch origin net rq st = respondWith (handlePageRequest origin net rq st)"
  using assms by (auto simp: onFetch_def classify_cases)

text \<open>A GET request is left without a response in exactly one situation.\<close>

lemma onFetch_no_response_iff:
  assumes "method rq = ''GET''"
  shows "fst (onFetch origin net rq st) = RespondWith None \<longleftrightarrow>
           classify rq = Page \<and> (\<exists>e. net rq = Inl e) \<and> destination rq = ''document''
           \<and> caches_match (caches st) (url rq) = None
           \<and> caches_match (caches st) (resolve origin ''/index.html'') = None"
proof (cases "classify rq = Page")
  case True
  with assms show ?thesis
    by (auto simp: onFetch_page respondWith_def handlePageRequest_def fetch_def
        split: sum.splits option.splits)
next
  case False
  then have "classify rq = Image \<or> classify rq = Asset"
    by (cases "classify rq") auto
  with assms False show ?thesis
    by (auto simp: onFetch_cache_first respondWith_def handleImageRequest_def fetch_def
        split: sum.splits option.splits)
qed

text \<open>What one handled GET request does to the storage, whatever its class.\<close>

lemma onFetch_storage:
  assumes "method rq = ''GET''" and "onFetch origin net rq st = (out, st')"
  shows "(net_log st' = net_log st \<or> net_log st' = net_log st @ [rq])
       \<and> caches st' =
           (case net rq of
              Inr r \<Rightarrow> if ok r \<and> net_log st' \<noteq> net_log st
                       then put_in DYNAMIC_CACHE rq r (caches st) else caches st
            | Inl e \<Rightarrow> caches st)"
proof (cases "classify rq = Page")
  case True
  with assms have "respondWith (handlePageRequest origin net rq st) = (out, st')"
    by (simp add: onFetch_page)
  then show ?thesis
    by (auto simp: respondWith_def handlePageRequest_def fetch_def
        split: sum.splits option.splits if_splits)
next
  case False
  then have "classify rq = Image \<or> classify rq = Asset"
    by (cases "classify rq") auto
  with assms have "respondWith (handleImageRequest net rq st) = (out, st')"
    by (simp add: onFetch_cache_first)
  then show ?thesis
    by (auto simp: respondWith_def handleImageRequest_def fetch_def
        split: sum.splits option.splits if_splits)
qed

section \<open>The claims\<close>

text \<open>
  C1 (the code departs from the claim). The claim: for every GET request the page gets a
  network, cached or synthetic response, and an offline navigation with no cache entry for
  its URL and no cached home document gets the synthetic 503 response. In the code such a
  navigation is answered with no response at all: the handler returns what the lookup of
  \<open>/index.html\<close> resolves with, which is \<open>undefined\<close>, and never reaches the 503
  response that follows.
\<close>

theorem offline_navigation_without_home_document:
  "onFetch site offline
     \<lparr>method = ''GET'', url = ''https://example.com/about'', destination = ''document''\<rparr> fresh
   = (RespondWith None,
      fresh\<lparr>net_log :=
        [\<lparr>method = ''GET'', url = ''https://example.com/about'', destination = ''document''\<rparr>]\<rparr>)"
  by (simp add: onFetch_def respondWith_def handlePageRequest_def fetch_def offline_def fresh_def
       startsWith_def)

text \<open>
  C2, as amended. For a worker on an \<open>http\<close> or \<open>https\<close> origin, the install step
  retrieves the five listed URLs, resolved against that origin: the root path,
  \<open>/index.html\<close>, the stylesheet, the script and one asset. When each of them is answered
  with a response that \<open>addAll\<close> accepts (a status from 200 to 299 other than 206, no
  \<open>Vary\<close> value \<open>*\<close>), the promise resolves, \<open>skipWaiting\<close> is called, the
  identities of the static partition are the ones it had plus these five, each holding
  the response of the network, and the host activates the worker. When one of them fails
  or is answered with a response that \<open>addAll\<close> does not accept, the promise rejects with
  a \<open>TypeError\<close>, the storage is what opening the static partition alone leaves (every
  partition keeps its contents, nothing of this attempt is stored), \<open>skipWaiting\<close> is not
  called, and the worker becomes redundant without its activate listener having run.
\<close>

theorem onInstall_all_or_nothing:
  assumes "http_scheme origin" and "CHR ''#'' \<notin> set origin"
  shows
  "length STATIC_ASSETS = 5 \<and> distinct (map (resolve origin) STATIC_ASSETS) \<and>
   (if \<forall>u\<in>set STATIC_ASSETS. fetchable net (resolve origin u)
    then fst (onInstall origin net st) = Inr ()
       \<and> skipWaitingCalled (snd (onInstall origin net st))
       \<and> (\<lambda>e. strip_fragment (fst e)) `
            set (partition_of (caches (snd (onInstall origin net st))) STATIC_CACHE) =
           (\<lambda>e. strip_fragment (fst e)) ` set (partition_of (caches st) STATIC_CACHE)
             \<union> resolve origin ` set STATIC_ASSETS
       \<and> (\<forall>u\<in>set STATIC_ASSETS. \<exists>r. net (GET (resolve origin u)) = Inr r \<and>
            cache_match (partition_of (caches (snd (onInstall origin net st))) STATIC_CACHE)
              (resolve origin u) = Some r)
       \<and> (\<forall>n. n \<noteq> STATIC_CACHE \<longrightarrow>
            partition_of (caches (snd (onInstall origin net st))) n = partition_of (caches st) n)
       \<and> fst (lifecycle origin net st) = Activated
    else onInstall origin net st =
           (Inl TypeError,
            st\<lparr>caches := caches_open STATIC_CACHE (caches st),
               net_log := net_log st @ map GET (map (resolve origin) STATIC_ASSETS)\<rparr>)
       \<and> (\<forall>n. partition_of (caches (snd (onInstall origin net st))) n = partition_of (caches st) n)
       \<and> skipWaitingCalled (snd (onInstall origin net st)) = skipWaitingCalled st
       \<and> lifecycle origin net st = (Redundant, snd (onInstall origin net st))
       \<and> clientsClaimed (snd (lifecycle origin net st)) = clientsClaimed st)"
proof (cases "\<forall>u\<in>set STATIC_ASSETS. fetchable net (resolve origin u)")
  case True
  let ?us = "map (resolve origin) STATIC_ASSETS"
  let ?id = "\<lambda>e::string \<times> response. strip_fragment (fst e)"
  let ?after = "partition_of (caches (snd (onInstall origin net st))) STATIC_CACHE"
  from onInstall_resolves[OF assms True, of st] obtain rs where
    rs: "fetch_each net ?us = Inr rs" and
    inst: "onInstall origin net st =
             (Inr (),
              st\<lparr>caches := put_each STATIC_CACHE rs (caches_open STATIC_CACHE (caches st)),
                 net_log := net_log st @ map GET ?us,
                 skipWaitingCalled := True\<rparr>)"
    by blast
  from fetch_each_Inr[OF rs] have keys: "map fst rs = ?us"
    and resp: "\<forall>p\<in>set rs. net (GET (fst p)) = Inr (snd p)" by auto
  have opened: "map_of (caches_open STATIC_CACHE (caches st)) STATIC_CACHE \<noteq> None"
    by (simp add: map_of_caches_open)
  have part: "partition_of (caches (snd (onInstall origin net st))) n =
      (if n = STATIC_CACHE
       then fold (\<lambda>e. cache_put (fst e) (snd e)) rs (partition_of (caches st) STATIC_CACHE)
       else partition_of (caches st) n)" for n
    by (simp add: inst partition_put_each[OF opened] partition_caches_open)
  have ids: "map ?id rs = ?us"
  proof -
    have "map ?id rs = map strip_fragment (map fst rs)" by simp
    also have "\<dots> = map strip_fragment ?us" by (simp only: keys)
    also have "\<dots> = ?us" using assms(2) by (simp add: strip_fragment_static)
    finally show ?thesis .
  qed
  have "?id ` set rs = set (map ?id rs)" by simp
  also have "\<dots> = resolve origin ` set STATIC_ASSETS" by (simp only: ids set_map)
  finally have "?id ` set rs = resolve origin ` set STATIC_ASSETS" .
  then have k: "?id ` set ?after =
      ?id ` set (partition_of (caches st) STATIC_CACHE) \<union> resolve origin ` set STATIC_ASSETS"
    by (simp add: part ids_fold_put)
  have d: "distinct (map ?id rs)"
    by (simp only: ids distinct_static_assets)
  have m: "\<forall>u\<in>set STATIC_ASSETS. \<exists>r. net (GET (resolve origin u)) = Inr r \<and>
            cache_match ?after (resolve origin u) = Some r"
  proof
    fix u assume "u \<in> set STATIC_ASSETS"
    then have "resolve origin u \<in> set (map fst rs)"
      by (simp only: keys set_map image_eqI)
    then obtain r where in_rs: "(resolve origin u, r) \<in> set rs" by auto
    with resp have "net (GET (resolve origin u)) = Inr r" by fastforce
    moreover from match_fold_put[OF d in_rs]
    have "cache_match ?after (resolve origin u) = Some r"
      by (simp add: part)
    ultimately show "\<exists>r. net (GET (resolve origin u)) = Inr r \<and>
            cache_match ?after (resolve origin u) = Some r" by blast
  qed
  have o: "\<forall>n. n \<noteq> STATIC_CACHE \<longrightarrow>
      partition_of (caches (snd (onInstall origin net st))) n = partition_of (caches st) n"
    by (simp add: part)
  have l: "fst (lifecycle origin net st) = Activated"
    by (simp add: lifecycle_def inst)
  have s: "fst (onInstall origin net st) = Inr ()
      \<and> skipWaitingCalled (snd (onInstall origin net st))"
    by (simp add: inst)
  have len: "length STATIC_ASSETS = 5" by (simp add: STATIC_ASSETS_def)
  show ?thesis
    unfolding if_P[OF True]
    using len distinct_static_assets[of origin] s k m o l by blast
next
  case False
  note inst = onInstall_rejects[OF assms(1) False, of st]
  have "length STATIC_ASSETS = 5" by (simp add: STATIC_ASSETS_def)
  with False show ?thesis
    by (simp add: inst lifecycle_def partition_caches_open distinct_static_assets del: distinct_map)
qed

text \<open>The theorem of C2 at a network that answers everything, at one where the stylesheet
  cannot be retrieved, and at one that answers the stylesheet with status 206.\<close>

theorem onInstall_all_or_nothing_witness:
  "fst (lifecycle site online fresh) = Activated
   \<and> skipWaitingCalled (snd (onInstall site online fresh))
   \<and> fst (lifecycle site
        (\<lambda>rq. if url rq = ''https://example.com/style.css'' then Inl TypeError else online rq)
        fresh) = Redundant
   \<and> partition_of (caches (snd (onInstall site
        (\<lambda>rq. if url rq = ''https://example.com/style.css'' then Inl TypeError else online rq)
        fresh))) STATIC_CACHE = []
   \<and> lifecycle site
        (\<lambda>rq. if url rq = ''https://example.com/style.css''
              then Inr (Response ''part'' 206) else online rq)
        fresh
      = (Redundant,
         fresh\<lparr>caches := [(STATIC_CACHE, [])],
           net_log := map GET (map (resolve site) STATIC_ASSETS)\<rparr>)"
proof -
  let ?bad = "\<lambda>rq. if url rq = ''https://example.com/style.css'' then Inl TypeError else online rq"
  let ?part = "\<lambda>rq. if url rq = ''https://example.com/style.css''
              then Inr (Response ''part'' 206) else online rq"
  have h: "http_scheme site" and f: "CHR ''#'' \<notin> set site"
    by (simp_all add: http_scheme_def startsWith_def site_def)
  have up: "\<forall>u\<in>set STATIC_ASSETS. fetchable online (resolve site u)"
    by (simp add: STATIC_ASSETS_def fetchable_def addable_def online_def ok_def Response_def)
  have down: "\<not> (\<forall>u\<in>set STATIC_ASSETS. fetchable ?bad (resolve site u))"
    by (simp add: STATIC_ASSETS_def fetchable_def GET_def resolve_def site_def)
  have partial: "\<not> (\<forall>u\<in>set STATIC_ASSETS. fetchable ?part (resolve site u))"
    by (simp add: STATIC_ASSETS_def fetchable_def addable_def GET_def resolve_def site_def
        Response_def)
  from onInstall_all_or_nothing[OF h f, where net = online and st = fresh,
      unfolded if_P[OF up]]
  have "fst (lifecycle site online fresh) = Activated
      \<and> skipWaitingCalled (snd (onInstall site online fresh))"
    by simp
  moreover
  from onInstall_all_or_nothing[OF h f, where net = ?bad and st = fresh,
      unfolded if_not_P[OF down]]
  have "fst (lifecycle site ?bad fresh) = Redundant
      \<and> partition_of (caches (snd (onInstall site ?bad fresh))) STATIC_CACHE
          = partition_of (caches fresh) STATIC_CACHE"
    by (simp add: partition_caches_open)
  moreover have "partition_of (caches fresh) STATIC_CACHE = []"
    by (simp add: fresh_def partition_of_def)
  moreover
  from onInstall_all_or_nothing[OF h f, where net = ?part and st = fresh,
      unfolded if_not_P[OF partial]]
  have "lifecycle site ?part fresh
      = (Redundant,
         fresh\<lparr>caches := caches_open STATIC_CACHE (caches fresh),
           net_log := net_log fresh @ map GET (map (resolve site) STATIC_ASSETS)\<rparr>)"
    by simp
  moreover have "caches_open STATIC_CACHE (caches fresh) = [(STATIC_CACHE, [])]"
    and "net_log fresh = []"
    by (simp_all add: fresh_def caches_open_def)
  ultimately show ?thesis by simp
qed

text \<open>C2 as stated fails: after a successful install on an empty storage the static
  partition holds five identities, not four.\<close>

theorem static_partition_five_identities_counterexample:
  "fst (onInstall site online fresh) = Inr ()
   \<and> map fst (partition_of (caches (snd (onInstall site online fresh))) STATIC_CACHE) =
       [''https://example.com/'', ''https://example.com/index.html'',
        ''https://example.com/style.css'', ''https://example.com/script.js'',
        ''https://example.com/assets/resume.pdf'']
   \<and> length (partition_of (caches (snd (onInstall site online fresh))) STATIC_CACHE) \<noteq> 4"
  by (simp add: onInstall_def addAll_def put_each_def store_in_def caches_open_def
      cache_put_def STATIC_ASSETS_def STATIC_CACHE_def resolve_def GET_def
      site_def online_def fresh_def Response_def ok_def addable_def partition_of_def Let_def
      http_scheme_def startsWith_def strip_fragment_def)

text \<open>
  C3. Activation keeps exactly the partitions whose name is one of the two current
  names, in their order and with their contents, deletes every other partition, and
  claims the open pages. With the names \<open>static-v2\<close> and \<open>dynamic-v2\<close> current and
  the partitions of both versions present, the names listed afterwards are the two v2
  names.
\<close>

theorem onActivate_keeps_only_current:
  "caches (activate s d st) = filter (\<lambda>p. fst p = s \<or> fst p = d) (caches st)
   \<and> caches_keys (caches (onActivate st)) =
       filter (\<lambda>n. n = STATIC_CACHE \<or> n = DYNAMIC_CACHE) (caches_keys (caches st))
   \<and> clientsClaimed (onActivate st)
   \<and> caches_keys (caches (activate ''static-v2'' ''dynamic-v2''
         (st\<lparr>caches := [(''static-v1'', c1), (''dynamic-v1'', c2),
                         (''static-v2'', c3), (''dynamic-v2'', c4)]\<rparr>))) =
       [''static-v2'', ''dynamic-v2'']"
proof -
  have "caches_keys (caches (onActivate st)) =
       filter (\<lambda>n. n = STATIC_CACHE \<or> n = DYNAMIC_CACHE) (caches_keys (caches st))"
    by (simp add: onActivate_def caches_activate caches_keys_def filter_map comp_def)
  moreover have "clientsClaimed (onActivate st)"
    by (simp add: onActivate_def activate_def Let_def)
  ultimately show ?thesis
    by (simp add: caches_activate caches_keys_def)
qed

text \<open>
  C4, as amended. A request whose method is not GET is not intercepted and changes
  nothing. A GET request is dispatched under exactly one class: Image when its
  destination is \<open>image\<close>; Asset when it is not an image and its URL contains
  \<open>/assets/\<close> anywhere (host, path, query or fragment); Page otherwise.
\<close>

theorem onFetch_routing:
  "onFetch origin net rq st =
     (if method rq \<noteq> ''GET'' then (NotIntercepted, st)
      else case classify rq of
        Image \<Rightarrow> respondWith (handleImageRequest net rq st)
      | Asset \<Rightarrow> respondWith (handleAssetRequest net rq st)
      | Page \<Rightarrow> respondWith (handlePageRequest origin net rq st))
   \<and> (classify rq = Image \<longleftrightarrow> destination rq = ''image'')
   \<and> (classify rq = Asset \<longleftrightarrow>
        destination rq \<noteq> ''image'' \<and> includes_str (url rq) ''/assets/'')
   \<and> (classify rq = Page \<longleftrightarrow>
        destination rq \<noteq> ''image'' \<and> \<not> includes_str (url rq) ''/assets/'')"
  by (simp add: onFetch_def classify_def)

text \<open>C4 as stated fails: a request whose path is \<open>/index.html\<close> and whose query
  contains \<open>/assets/\<close> is a page by its path, yet it is served cache first, with the
  cached entry and no retrieval, where the page strategy would have answered from the
  network.\<close>

theorem asset_class_by_path_prefix_counterexample:
  "spec_classify \<lparr>method = ''GET'', url = ''https://example.com/index.html?from=/assets/'',
                  destination = ''''\<rparr> = Page
   \<and> classify \<lparr>method = ''GET'', url = ''https://example.com/index.html?from=/assets/'',
                  destination = ''''\<rparr> = Asset
   \<and> onFetch site online
        \<lparr>method = ''GET'', url = ''https://example.com/index.html?from=/assets/'',
          destination = ''''\<rparr>
        (fresh\<lparr>caches := [(DYNAMIC_CACHE,
           [(''https://example.com/index.html?from=/assets/'', Response ''old'' 200)])]\<rparr>)
      = (RespondWith (Some (Response ''old'' 200)),
         fresh\<lparr>caches := [(DYNAMIC_CACHE,
           [(''https://example.com/index.html?from=/assets/'', Response ''old'' 200)])]\<rparr>)
   \<and> fst (handlePageRequest site online
        \<lparr>method = ''GET'', url = ''https://example.com/index.html?from=/assets/'',
          destination = ''''\<rparr>
        (fresh\<lparr>caches := [(DYNAMIC_CACHE,
           [(''https://example.com/index.html?from=/assets/'', Response ''old'' 200)])]\<rparr>))
      = Some (Response ''https://example.com/index.html?from=/assets/'' 200)"
  by (simp add: spec_classify_def classify_def url_path_def startsWith_def onFetch_def
      respondWith_def handleAssetRequest_def handlePageRequest_def fetch_def online_def fresh_def strip_fragment_def
      Response_def ok_def)

text \<open>
  C5. A GET request of class Image or Asset whose URL has an entry in some partition is
  answered with that entry; the state is unchanged, so no network retrieval was made.
\<close>

theorem cache_first_hit_no_network:
  assumes "method rq = ''GET''"
    and "classify rq = Image \<or> classify rq = Asset"
    and "caches_match (caches st) (url rq) = Some cached"
  shows "onFetch origin net rq st = (RespondWith (Some cached), st)
         \<and> net_log (snd (onFetch origin net rq st)) = net_log st"
  using assms by (simp add: onFetch_cache_first respondWith_def handleImageRequest_def)

text \<open>The theorem of C5 at an image held by the static partition, with the network down.\<close>

theorem cache_first_hit_no_network_witness:
  "onFetch site offline
     \<lparr>method = ''GET'', url = ''https://example.com/logo.png'', destination = ''image''\<rparr>
     (fresh\<lparr>caches := [(STATIC_CACHE, [(''https://example.com/logo.png'', Response ''png'' 200)])]\<rparr>)
   = (RespondWith (Some (Response ''png'' 200)),
      fresh\<lparr>caches := [(STATIC_CACHE, [(''https://example.com/logo.png'', Response ''png'' 200)])]\<rparr>)"
  using cache_first_hit_no_network[where origin = site and net = offline
      and rq = "\<lparr>method = ''GET'', url = ''https://example.com/logo.png'', destination = ''image''\<rparr>"
      and st = "fresh\<lparr>caches := [(STATIC_CACHE, [(''https://example.com/logo.png'', Response ''png'' 200)])]\<rparr>"
      and cached = "Response ''png'' 200"]
  by (simp add: classify_def strip_fragment_def)

text \<open>
  C6, as amended. For a GET request, whatever the strategy, an entry for its URL is
  written into the dynamic partition exactly when a retrieval was made, the network
  answered with a status from 200 to 299, and the cache accepts the entry (an \<open>http\<close> or
  \<open>https\<close> URL, a status other than 206, no \<open>Vary\<close> value \<open>*\<close>). The storage afterwards
  is then the one before with the dynamic partition opened and that response stored
  under the URL, and the dynamic partition holds that very response for the URL. In
  every other case no partition changes its contents: the storage is unchanged when no
  retrieval was made, when the retrieval was rejected or when the status is outside 200
  to 299, and it is the storage with the dynamic partition opened when the cache refused
  the entry. The put is taken as settled by the time the handler has returned.
\<close>

theorem dynamic_written_iff_accepted_fetch:
  assumes "method rq = ''GET''" and "onFetch origin net rq st = (out, st')"
  shows "(case net rq of
            Inr r \<Rightarrow>
              if net_log st' \<noteq> net_log st \<and> ok r \<and> storable rq r
              then caches st' =
                     store_in DYNAMIC_CACHE (url rq) r (caches_open DYNAMIC_CACHE (caches st))
                 \<and> cache_match (partition_of (caches st') DYNAMIC_CACHE) (url rq) = Some r
              else (\<forall>n. partition_of (caches st') n = partition_of (caches st) n)
                 \<and> caches st' =
                     (if net_log st' \<noteq> net_log st \<and> ok r
                      then caches_open DYNAMIC_CACHE (caches st) else caches st)
          | Inl e \<Rightarrow> caches st' = caches st)"
proof -
  from onFetch_storage[OF assms]
  have c: "caches st' =
      (case net rq of
         Inr r \<Rightarrow> if ok r \<and> net_log st' \<noteq> net_log st
                  then put_in DYNAMIC_CACHE rq r (caches st) else caches st
       | Inl e \<Rightarrow> caches st)"
    by simp
  show ?thesis
  proof (cases "net rq")
    case (Inl e)
    with c show ?thesis by simp
  next
    case (Inr r)
    show ?thesis
    proof (cases "storable rq r")
      case True
      from match_partition_put_in[OF True, of DYNAMIC_CACHE "caches st"] c Inr True
      show ?thesis
        by (auto simp: put_in_stored)
    next
      case False
      with c Inr show ?thesis
        by (auto simp: put_in_refused partition_caches_open)
    qed
  qed
qed

text \<open>The theorem of C6 at an image answered with status 200, at one answered with
  status 404 and at one answered with status 206, each on an empty storage.\<close>

theorem dynamic_written_iff_accepted_fetch_witness:
  "caches (snd (onFetch site online
       \<lparr>method = ''GET'', url = ''https://example.com/logo.png'', destination = ''image''\<rparr> fresh))
     = [(DYNAMIC_CACHE, [(''https://example.com/logo.png'', Response ''https://example.com/logo.png'' 200)])]
   \<and> caches (snd (onFetch site (\<lambda>rq. Inr (Response ''gone'' 404))
       \<lparr>method = ''GET'', url = ''https://example.com/logo.png'', destination = ''image''\<rparr> fresh))
     = []
   \<and> caches (snd (onFetch site (\<lambda>rq. Inr (Response ''part'' 206))
       \<lparr>method = ''GET'', url = ''https://example.com/logo.png'', destination = ''image''\<rparr> fresh))
     = [(DYNAMIC_CACHE, [])]"
proof -
  let ?rq = "\<lparr>method = ''GET'', url = ''https://example.com/logo.png'', destination = ''image''\<rparr>"
  let ?gone = "\<lambda>rq::request. Inr (Response ''gone'' 404) :: js_error + response"
  let ?part = "\<lambda>rq::request. Inr (Response ''part'' 206) :: js_error + response"
  have log: "net_log (snd (onFetch site net ?rq fresh)) \<noteq> net_log fresh" for net
    by (cases "net ?rq")
      (simp_all add: onFetch_def respondWith_def handleImageRequest_def fetch_def fresh_def)
  have "method ?rq = ''GET''" by simp
  note a = dynamic_written_iff_accepted_fetch[OF this prod.collapse[symmetric], of site online fresh]
  have "method ?rq = ''GET''" by simp
  note b = dynamic_written_iff_accepted_fetch[OF this prod.collapse[symmetric], of site ?gone fresh]
  have "method ?rq = ''GET''" by simp
  note c = dynamic_written_iff_accepted_fetch[OF this prod.collapse[symmetric], of site ?part fresh]
  from a log[of online]
  have "caches (snd (onFetch site online ?rq fresh)) =
      [(DYNAMIC_CACHE, [(''https://example.com/logo.png'', Response ''https://example.com/logo.png'' 200)])]"
    by (simp add: online_def ok_def Response_def storable_def http_scheme_def startsWith_def
        store_in_def caches_open_def cache_put_def fresh_def)
  moreover from b
  have "caches (snd (onFetch site ?gone ?rq fresh)) = []"
    by (simp add: ok_def Response_def fresh_def)
  moreover from c log[of ?part]
  have "caches (snd (onFetch site ?part ?rq fresh)) = [(DYNAMIC_CACHE, [])]"
    by (simp add: ok_def Response_def storable_def caches_open_def fresh_def)
  ultimately show ?thesis by simp
qed

text \<open>C6 as stated fails: a media file under \<open>/assets/\<close> is retrieved and answered with
  status 206, a status from 200 to 299; the response is returned, the dynamic partition
  is opened, and no entry is written.\<close>

theorem partial_content_not_written_counterexample:
  "ok (Response ''part'' 206)
   \<and> onFetch site (\<lambda>rq. Inr (Response ''part'' 206))
       \<lparr>method = ''GET'', url = ''https://example.com/assets/intro.mp4'', destination = ''video''\<rparr>
       fresh
     = (RespondWith (Some (Response ''part'' 206)),
        fresh\<lparr>net_log :=
            [\<lparr>method = ''GET'', url = ''https://example.com/assets/intro.mp4'',
              destination = ''video''\<rparr>],
          caches := [(DYNAMIC_CACHE, [])]\<rparr>)"
  by (simp add: onFetch_def respondWith_def handleAssetRequest_def fetch_def put_in_def
      storable_def caches_open_def Response_def ok_def fresh_def startsWith_def Let_def)

text \<open>
  C7, as amended. A GET request of class Page that the network answers with a status
  from 200 to 299 is answered with that response. When the cache accepts the entry (an
  \<open>http\<close> or \<open>https\<close> URL, a status other than 206, no \<open>Vary\<close> value \<open>*\<close>) the
  response is stored under the URL in the dynamic partition; otherwise the dynamic
  partition is opened and no partition changes its contents. In both cases repeating the
  request against the same network gives the same response and leaves the storage as the
  first call left it.
\<close>

theorem page_network_success:
  assumes "method rq = ''GET''" and "classify rq = Page" and "net rq = Inr r" and "ok r"
  shows "fst (onFetch origin net rq st) = RespondWith (Some r)
       \<and> (if storable rq r
          then onFetch origin net rq st =
                 (RespondWith (Some r),
                  st\<lparr>net_log := net_log st @ [rq],
                     caches := store_in DYNAMIC_CACHE (url rq) r
                                 (caches_open DYNAMIC_CACHE (caches st))\<rparr>)
             \<and> cache_match
                 (partition_of (caches (snd (onFetch origin net rq st))) DYNAMIC_CACHE) (url rq)
                 = Some r
          else onFetch origin net rq st =
                 (RespondWith (Some r),
                  st\<lparr>net_log := net_log st @ [rq],
                     caches := caches_open DYNAMIC_CACHE (caches st)\<rparr>)
             \<and> (\<forall>n. partition_of (caches (snd (onFetch origin net rq st))) n
                      = partition_of (caches st) n))
       \<and> fst (onFetch origin net rq (snd (onFetch origin net rq st))) = RespondWith (Some r)
       \<and> caches (snd (onFetch origin net rq (snd (onFetch origin net rq st))))
           = caches (snd (onFetch origin net rq st))"
proof -
  have once: "onFetch origin net rq s =
      (RespondWith (Some r),
       s\<lparr>net_log := net_log s @ [rq], caches := put_in DYNAMIC_CACHE rq r (caches s)\<rparr>)" for s
    using assms
    by (simp add: onFetch_page respondWith_def handlePageRequest_def fetch_def)
  have twice: "caches (snd (onFetch origin net rq (snd (onFetch origin net rq st))))
      = caches (snd (onFetch origin net rq st))"
    by (simp add: once put_in_idem)
  show ?thesis
  proof (cases "storable rq r")
    case True
    from match_partition_put_in[OF True, of DYNAMIC_CACHE "caches st"] True twice
    show ?thesis
      by (simp add: once put_in_stored)
  next
    case False
    with twice show ?thesis
      by (simp add: once put_in_refused partition_caches_open)
  qed
qed

text \<open>The theorem of C7 at a navigation on an empty storage.\<close>

theorem page_network_success_witness:
  "onFetch site online
     \<lparr>method = ''GET'', url = ''https://example.com/about'', destination = ''document''\<rparr> fresh
   = (RespondWith (Some (Response ''https://example.com/about'' 200)),
      fresh\<lparr>net_log :=
          [\<lparr>method = ''GET'', url = ''https://example.com/about'', destination = ''document''\<rparr>],
        caches := [(DYNAMIC_CACHE,
          [(''https://example.com/about'', Response ''https://example.com/about'' 200)])]\<rparr>)"
proof -
  let ?rq = "\<lparr>method = ''GET'', url = ''https://example.com/about'', destination = ''document''\<rparr>"
  let ?r = "Response ''https://example.com/about'' 200"
  have g: "method ?rq = ''GET''" by simp
  have p: "classify ?rq = Page" by (simp add: classify_def startsWith_def)
  have n: "online ?rq = Inr ?r" by (simp add: online_def)
  have k: "ok ?r" by (simp add: ok_def Response_def)
  have s: "storable ?rq ?r"
    by (simp add: storable_def http_scheme_def startsWith_def Response_def)
  from page_network_success[where origin = site and st = fresh and rq = ?rq and net = online
      and r = ?r, OF g p n k, THEN conjunct2, THEN conjunct1, unfolded if_P[OF s],
      THEN conjunct1]
  show ?thesis
    by (simp add: store_in_def caches_open_def cache_put_def fresh_def)
qed

text \<open>C7 as stated fails: a media file is requested, the network answers with status 206,
  a status from 200 to 299; the response is returned and the dynamic partition holds no
  entry for the URL.\<close>

theorem page_partial_content_counterexample:
  "classify \<lparr>method = ''GET'', url = ''https://example.com/media/intro.mp4'',
             destination = ''video''\<rparr> = Page
   \<and> ok (Response ''part'' 206)
   \<and> fst (onFetch site (\<lambda>rq. Inr (Response ''part'' 206))
       \<lparr>method = ''GET'', url = ''https://example.com/media/intro.mp4'', destination = ''video''\<rparr>
       fresh)
     = RespondWith (Some (Response ''part'' 206))
   \<and> cache_match
       (partition_of (caches (snd (onFetch site (\<lambda>rq. Inr (Response ''part'' 206))
          \<lparr>method = ''GET'', url = ''https://example.com/media/intro.mp4'',
            destination = ''video''\<rparr>
          fresh))) DYNAMIC_CACHE)
       ''https://example.com/media/intro.mp4''
     = None"
  by (simp add: classify_def onFetch_def respondWith_def handlePageRequest_def fetch_def
      put_in_def storable_def caches_open_def Response_def ok_def fresh_def startsWith_def
      partition_of_def Let_def)

text \<open>
  C8, as amended. For a GET request of class Page whose retrieval is rejected: when the
  lookup over the partitions, in creation order and with fragments left out, finds a
  response for the URL, that response is the answer and the storage is unchanged; and a
  response that a preceding successful request for the same URL received is the answer,
  provided the cache accepted it (an \<open>http\<close> or \<open>https\<close> URL, a status other than 206,
  no \<open>Vary\<close> value \<open>*\<close>) and no partition other than the dynamic one holds an entry
  for the URL.
\<close>

theorem page_network_failure_cached:
  assumes "method rq = ''GET''" and "classify rq = Page" and "net rq = Inl e"
  shows "(\<forall>c. caches_match (caches st) (url rq) = Some c \<longrightarrow>
            onFetch origin net rq st = (RespondWith (Some c), st\<lparr>net_log := net_log st @ [rq]\<rparr>))
       \<and> (\<forall>up r. up rq = Inr r \<and> ok r \<and> storable rq r
            \<and> (\<forall>p\<in>set (caches st). fst p \<noteq> DYNAMIC_CACHE \<longrightarrow> cache_match (snd p) (url rq) = None)
            \<longrightarrow> fst (onFetch origin net rq (snd (onFetch origin up rq st))) = RespondWith (Some r))"
  using assms
  by (simp add: onFetch_page respondWith_def handlePageRequest_def fetch_def caches_match_put_in)

text \<open>The theorem of C8 at a cached page with the network down, and at a page stored
  while online and requested again while offline.\<close>

theorem page_network_failure_cached_witness:
  "onFetch site offline
     \<lparr>method = ''GET'', url = ''https://example.com/about'', destination = ''document''\<rparr>
     (fresh\<lparr>caches := [(DYNAMIC_CACHE, [(''https://example.com/about'', Response ''about'' 200)])]\<rparr>)
   = (RespondWith (Some (Response ''about'' 200)),
      fresh\<lparr>caches := [(DYNAMIC_CACHE, [(''https://example.com/about'', Response ''about'' 200)])],
        net_log :=
          [\<lparr>method = ''GET'', url = ''https://example.com/about'', destination = ''document''\<rparr>]\<rparr>)
   \<and> fst (onFetch site offline
       \<lparr>method = ''GET'', url = ''https://example.com/about'', destination = ''document''\<rparr>
       (snd (onFetch site online
         \<lparr>method = ''GET'', url = ''https://example.com/about'', destination = ''document''\<rparr>
         (fresh\<lparr>caches := [(STATIC_CACHE, [(''https://example.com/'', Response ''home'' 200)])]\<rparr>))))
     = RespondWith (Some (Response ''https://example.com/about'' 200))"
proof -
  let ?rq = "\<lparr>method = ''GET'', url = ''https://example.com/about'', destination = ''document''\<rparr>"
  let ?st = "fresh\<lparr>caches := [(DYNAMIC_CACHE, [(''https://example.com/about'', Response ''about'' 200)])]\<rparr>"
  let ?st2 = "fresh\<lparr>caches := [(STATIC_CACHE, [(''https://example.com/'', Response ''home'' 200)])]\<rparr>"
  have g: "method ?rq = ''GET''" by simp
  have p: "classify ?rq = Page" by (simp add: classify_def startsWith_def)
  have f: "offline ?rq = Inl TypeError" by (simp add: offline_def)
  note a = page_network_failure_cached[where rq = ?rq and net = offline and st = ?st
      and origin = site, OF g p f, THEN conjunct1, rule_format, of "Response ''about'' 200"]
  note b = page_network_failure_cached[where rq = ?rq and net = offline and st = ?st2
      and origin = site, OF g p f, THEN conjunct2, rule_format,
      of online "Response ''https://example.com/about'' 200"]
  have "onFetch site offline ?rq ?st =
      (RespondWith (Some (Response ''about'' 200)), ?st\<lparr>net_log := net_log ?st @ [?rq]\<rparr>)"
    by (rule a) (simp add: strip_fragment_def)
  moreover have "fst (onFetch site offline ?rq (snd (onFetch site online ?rq ?st2)))
      = RespondWith (Some (Response ''https://example.com/about'' 200))"
    by (rule b)
      (simp add: online_def ok_def Response_def storable_def http_scheme_def startsWith_def
        strip_fragment_def)
  ultimately show ?thesis
    by (simp add: fresh_def)
qed

text \<open>C8 as stated fails: after install, \<open>/index.html\<close> is retrieved with a new body,
  which is stored in the dynamic partition; requested again with the network down, the
  answer is the copy of the static partition, which was created first, not the stored
  value.\<close>

theorem page_round_trip_counterexample:
  "cache_match (partition_of (caches (snd (onFetch site (\<lambda>rq. Inr (Response ''new'' 200))
       \<lparr>method = ''GET'', url = ''https://example.com/index.html'', destination = ''document''\<rparr>
       (snd (lifecycle site online fresh))))) DYNAMIC_CACHE) ''https://example.com/index.html''
     = Some (Response ''new'' 200)
   \<and> fst (onFetch site offline
       \<lparr>method = ''GET'', url = ''https://example.com/index.html'', destination = ''document''\<rparr>
       (snd (onFetch site (\<lambda>rq. Inr (Response ''new'' 200))
         \<lparr>method = ''GET'', url = ''https://example.com/index.html'', destination = ''document''\<rparr>
         (snd (lifecycle site online fresh)))))
     = RespondWith (Some (Response ''https://example.com/index.html'' 200))"
  by (simp add: lifecycle_def onInstall_def addAll_def put_each_def put_in_def store_in_def
      storable_def addable_def http_scheme_def strip_fragment_def caches_open_def
      cache_put_def STATIC_ASSETS_def STATIC_CACHE_def DYNAMIC_CACHE_def resolve_def GET_def
      site_def online_def offline_def fresh_def Response_def ok_def onActivate_def activate_def
      caches_keys_def caches_delete_def onFetch_def respondWith_def handlePageRequest_def
      fetch_def startsWith_def partition_of_def Let_def)

text \<open>
  C9, as amended. A GET request of class Page (its URL does not contain \<open>/assets/\<close>)
  with destination \<open>document\<close>, whose retrieval is rejected and whose URL has no cached
  entry, is answered with the cached home document \<open>/index.html\<close> when one is cached.
\<close>

theorem offline_navigation_home_document:
  assumes "method rq = ''GET''" and "destination rq = ''document''"
    and "\<not> includes_str (url rq) ''/assets/''" and "net rq = Inl e"
    and "caches_match (caches st) (url rq) = None"
    and "caches_match (caches st) (resolve origin ''/index.html'') = Some home"
  shows "onFetch origin net rq st =
           (RespondWith (Some home), st\<lparr>net_log := net_log st @ [rq]\<rparr>)"
  using assms
  by (simp add: onFetch_def respondWith_def handlePageRequest_def fetch_def)

text \<open>The theorem of C9 at a navigation to an uncached route with the network down and
  the home document in the static partition.\<close>

theorem offline_navigation_home_document_witness:
  "onFetch site offline
     \<lparr>method = ''GET'', url = ''https://example.com/about'', destination = ''document''\<rparr>
     (fresh\<lparr>caches := [(STATIC_CACHE, [(''https://example.com/index.html'', Response ''home'' 200)])]\<rparr>)
   = (RespondWith (Some (Response ''home'' 200)),
      fresh\<lparr>caches := [(STATIC_CACHE, [(''https://example.com/index.html'', Response ''home'' 200)])],
        net_log :=
          [\<lparr>method = ''GET'', url = ''https://example.com/about'', destination = ''document''\<rparr>]\<rparr>)"
  using offline_navigation_home_document[where origin = site and net = offline and e = TypeError
      and rq = "\<lparr>method = ''GET'', url = ''https://example.com/about'', destination = ''document''\<rparr>"
      and st = "fresh\<lparr>caches := [(STATIC_CACHE, [(''https://example.com/index.html'', Response ''home'' 200)])]\<rparr>"
      and home = "Response ''home'' 200"]
  by (simp add: startsWith_def offline_def strip_fragment_def resolve_def site_def fresh_def)

text \<open>C9 as stated fails: a navigation to a document under \<open>/assets/\<close> is served by
  the asset strategy; with the network down and no entry for its URL the answer is the
  synthetic 404 response, although the home document is cached.\<close>

theorem offline_document_under_assets_counterexample:
  "caches_match (caches (snd (lifecycle site online fresh))) ''https://example.com/assets/cv.pdf''
     = None
   \<and> caches_match (caches (snd (lifecycle site online fresh))) (resolve site ''/index.html'')
     = Some (Response ''https://example.com/index.html'' 200)
   \<and> fst (onFetch site offline
       \<lparr>method = ''GET'', url = ''https://example.com/assets/cv.pdf'', destination = ''document''\<rparr>
       (snd (lifecycle site online fresh)))
     = RespondWith (Some (Response '''' 404))"
  by (simp add: lifecycle_def onInstall_def addAll_def put_each_def store_in_def addable_def
      http_scheme_def caches_open_def
      cache_put_def STATIC_ASSETS_def STATIC_CACHE_def DYNAMIC_CACHE_def resolve_def GET_def
      site_def online_def offline_def fresh_def Response_def ok_def onActivate_def activate_def
      caches_keys_def caches_delete_def onFetch_def respondWith_def handleAssetRequest_def
      fetch_def startsWith_def strip_fragment_def partition_of_def Let_def)

text \<open>
  C10. For a GET request of class Image or Asset with no cached entry: a network answer
  with a status outside 200 to 299 is returned as it is and nothing is stored; any network
  answer is the response returned; the synthetic 404 response with an empty body is
  returned when the retrieval itself is rejected.
\<close>

theorem cache_first_miss:
  assumes "method rq = ''GET''"
    and "classify rq = Image \<or> classify rq = Asset"
    and "caches_match (caches st) (url rq) = None"
  shows "(\<forall>r. net rq = Inr r \<and> \<not> ok r \<longrightarrow>
            onFetch origin net rq st = (RespondWith (Some r), st\<lparr>net_log := net_log st @ [rq]\<rparr>))
       \<and> (\<forall>r. net rq = Inr r \<longrightarrow> fst (onFetch origin net rq st) = RespondWith (Some r))
       \<and> (\<forall>e. net rq = Inl e \<longrightarrow>
            onFetch origin net rq st =
              (RespondWith (Some (Response '''' 404)), st\<lparr>net_log := net_log st @ [rq]\<rparr>))"
  using assms by (simp add: onFetch_cache_first respondWith_def handleImageRequest_def fetch_def)

text \<open>The theorem of C10 at an image answered with status 404, and at an asset requested
  with the network down.\<close>

theorem cache_first_miss_witness:
  "onFetch site (\<lambda>rq. Inr (Response ''gone'' 404))
     \<lparr>method = ''GET'', url = ''https://example.com/logo.png'', destination = ''image''\<rparr> fresh
   = (RespondWith (Some (Response ''gone'' 404)),
      fresh\<lparr>net_log :=
        [\<lparr>method = ''GET'', url = ''https://example.com/logo.png'', destination = ''image''\<rparr>]\<rparr>)
   \<and> onFetch site offline
     \<lparr>method = ''GET'', url = ''https://example.com/assets/cv.pdf'', destination = ''''\<rparr> fresh
   = (RespondWith (Some (Response '''' 404)),
      fresh\<lparr>net_log :=
        [\<lparr>method = ''GET'', url = ''https://example.com/assets/cv.pdf'', destination = ''''\<rparr>]\<rparr>)"
proof -
  let ?img = "\<lparr>method = ''GET'', url = ''https://example.com/logo.png'', destination = ''image''\<rparr>"
  let ?pdf = "\<lparr>method = ''GET'', url = ''https://example.com/assets/cv.pdf'', destination = ''''\<rparr>"
  let ?gone = "\<lambda>rq::request. Inr (Response ''gone'' 404) :: js_error + response"
  have m: "caches_match (caches fresh) u = None" for u by (simp add: fresh_def)
  have "method ?img = ''GET''" "classify ?img = Image \<or> classify ?img = Asset"
    by (simp_all add: classify_def)
  note a = cache_first_miss[OF this m, of ?gone site, THEN conjunct1, rule_format,
      of "Response ''gone'' 404"]
  have "method ?pdf = ''GET''" "classify ?pdf = Image \<or> classify ?pdf = Asset"
    by (simp_all add: classify_def startsWith_def)
  note b = cache_first_miss[OF this m, of offline site, THEN conjunct2, THEN conjunct2,
      rule_format, of TypeError]
  have "onFetch site ?gone ?img fresh =
      (RespondWith (Some (Response ''gone'' 404)), fresh\<lparr>net_log := net_log fresh @ [?img]\<rparr>)"
    by (rule a) (simp add: ok_def Response_def)
  moreover have "onFetch site offline ?pdf fresh =
      (RespondWith (Some (Response '''' 404)), fresh\<lparr>net_log := net_log fresh @ [?pdf]\<rparr>)"
    by (rule b) (simp add: offline_def)
  ultimately show ?thesis
    by (simp add: fresh_def)
qed

end
